theory Spec2Isabelle
  imports Main "HOL-Library.Product_Lexorder"
begin

section \<open>Lead assignment of simpleAdvertisingCRM\<close>

text \<open>
  A shallow embedding of the two functions of \<^verbatim>\<open>main.go\<close> that decide which client
  receives a lead: \<^verbatim>\<open>parseTimePeriod\<close> (lines 238-265) and the handler
  \<^verbatim>\<open>assignLead\<close> (lines 180-233), with the records of the type file
  (\<^verbatim>\<open>Client\<close>, \<^verbatim>\<open>TimePeriod\<close>) and the few functions of Go's standard library
  they call.
\<close>

subsection \<open>Records\<close>

text \<open>
  \<^verbatim>\<open>type Client struct { ID int; Name string; WorkingHours string; Priority int;
  LeadCapacity int; ExistingLeads int }\<close>. The integer fields are Go \<^verbatim>\<open>int\<close>s that
  hold SQLite \<^verbatim>\<open>INTEGER\<close> columns; they are modelled by \<open>int\<close>. The only arithmetic
  on them is the \<^verbatim>\<open>existing_leads + 1\<close> of the \<^verbatim>\<open>UPDATE\<close> statement, which a single
  request runs only for a client whose existing leads are below a capacity that is itself
  a 64-bit integer.
\<close>

record Client =
  ID :: int
  Name :: string
  WorkingHours :: string
  Priority :: int
  LeadCapacity :: int
  ExistingLeads :: int

subsection \<open>Go's \<^verbatim>\<open>time.Time\<close>\<close>

text \<open>
  A \<^verbatim>\<open>time.Time\<close> is an instant together with a location. The instant is kept as
  seconds since the Unix epoch plus nanoseconds within the second; the location is kept
  as its offset from UTC, in seconds east, at that instant (\<open>UTC\<close> is offset 0).
  A calendar date (year, month, day) is represented by its day number, the count of days
  since 1970-01-01 in the proleptic Gregorian calendar; dates and day numbers correspond
  one to one.
\<close>

type_synonym Location = int

record Time =
  unixSec :: int
  nsec :: int
  loc :: Location

definition UTC :: Location where
  "UTC = 0"

text \<open>\<^verbatim>\<open>t.Location()\<close>\<close>

definition Location :: "Time \<Rightarrow> Location" where
  "Location t = loc t"

text \<open>\<^verbatim>\<open>t.Date()\<close>: the calendar date of \<open>t\<close> in its location, as a day number.\<close>

definition Date :: "Time \<Rightarrow> int" where
  "Date t = (unixSec t + loc t) div 86400"

text \<open>\<^verbatim>\<open>t.Hour()\<close>, \<^verbatim>\<open>t.Minute()\<close>, \<^verbatim>\<open>t.Second()\<close>, \<^verbatim>\<open>t.Nanosecond()\<close>: the clock
  reading of \<open>t\<close> in its location.\<close>

definition Hour :: "Time \<Rightarrow> int" where
  "Hour t = ((unixSec t + loc t) mod 86400) div 3600"

definition Minute :: "Time \<Rightarrow> int" where
  "Minute t = ((unixSec t + loc t) mod 3600) div 60"

definition Second :: "Time \<Rightarrow> int" where
  "Second t = (unixSec t + loc t) mod 60"

definition Nanosecond :: "Time \<Rightarrow> int" where
  "Nanosecond t = nsec t"

text \<open>
  \<^verbatim>\<open>time.Date(year, month, day, hour, min, sec, nsec, loc)\<close>, the date given by its day
  number. Hours, minutes and seconds out of their ranges carry over, as in Go; the
  nanoseconds are kept as given (the program passes 0).
\<close>

definition time_Date :: "int \<Rightarrow> int \<Rightarrow> int \<Rightarrow> int \<Rightarrow> int \<Rightarrow> Location \<Rightarrow> Time" where
  "time_Date day hour minute sec ns l =
     \<lparr>unixSec = day * 86400 + hour * 3600 + minute * 60 + sec - l, nsec = ns, loc = l\<rparr>"

text \<open>\<^verbatim>\<open>t.After(u)\<close> and \<^verbatim>\<open>t.Before(u)\<close> compare instants, strictly.\<close>

definition After :: "Time \<Rightarrow> Time \<Rightarrow> bool" where
  "After t u = (unixSec t > unixSec u \<or> (unixSec t = unixSec u \<and> nsec t > nsec u))"

definition Before :: "Time \<Rightarrow> Time \<Rightarrow> bool" where
  "Before t u = (unixSec t < unixSec u \<or> (unixSec t = unixSec u \<and> nsec t < nsec u))"

text \<open>\<^verbatim>\<open>type TimePeriod struct { Start time.Time; End time.Time }\<close>\<close>

record TimePeriod =
  Start :: Time
  End :: Time

subsection \<open>Go's \<^verbatim>\<open>strings.Split\<close> and \<^verbatim>\<open>time.Parse\<close>\<close>

text \<open>
  \<^verbatim>\<open>strings.Split(s, sep)\<close> for a separator of one byte: the substrings between the
  separators, one more than there are separators (the empty string gives one empty
  substring).
\<close>

fun strings_Split :: "string \<Rightarrow> char \<Rightarrow> string list" where
  "strings_Split [] sep = [[]]"
| "strings_Split (c # cs) sep =
     (if c = sep then [] # strings_Split cs sep
      else (case strings_Split cs sep of
              [] \<Rightarrow> [[c]]
            | w # ws \<Rightarrow> (c # w) # ws))"

text \<open>The helpers of Go's \<^verbatim>\<open>time\<close> package that \<^verbatim>\<open>time.Parse\<close> uses for the layout
  \<^verbatim>\<open>"15:04"\<close>.\<close>

definition isDigit :: "char \<Rightarrow> bool" where
  "isDigit c = (48 \<le> (of_char c :: int) \<and> (of_char c :: int) \<le> 57)"

definition digitVal :: "char \<Rightarrow> int" where
  "digitVal c = of_char c - 48"

text \<open>\<^verbatim>\<open>getnum(s, fixed)\<close>: a number of one or two digits at the head of \<open>s\<close> (exactly two
  when \<open>fixed\<close>) and the rest of \<open>s\<close>.\<close>

fun getnum :: "string \<Rightarrow> bool \<Rightarrow> (int \<times> string) option" where
  "getnum [] fixed = None"
| "getnum [a] fixed =
     (if \<not> isDigit a then None
      else if fixed then None
      else Some (digitVal a, []))"
| "getnum (a # b # rest) fixed =
     (if \<not> isDigit a then None
      else if \<not> isDigit b then (if fixed then None else Some (digitVal a, b # rest))
      else Some (digitVal a * 10 + digitVal b, rest))"

text \<open>
  \<^verbatim>\<open>time.Parse("15:04", value)\<close>: an hour of one or two digits below 24, a colon, a
  minute of exactly two digits below 60, and nothing more. The result is that clock time
  on January 1 of year 0 in UTC (day number \<open>-719528\<close>). Every failure is \<open>None\<close>: the
  caller only tests whether there was an error.
\<close>

definition time_Parse :: "string \<Rightarrow> Time option" where
  "time_Parse v =
     (case getnum v False of
        None \<Rightarrow> None
      | Some (hour, v1) \<Rightarrow>
          if hour < 0 \<or> 24 \<le> hour then None
          else (case v1 of
                  [] \<Rightarrow> None
                | c # v2 \<Rightarrow>
                    if c \<noteq> CHR '':'' then None
                    else (case getnum v2 True of
                            None \<Rightarrow> None
                          | Some (minute, v3) \<Rightarrow>
                              if minute < 0 \<or> 60 \<le> minute then None
                              else if v3 \<noteq> [] then None
                              else Some (time_Date (-719528) hour minute 0 0 UTC))))"

subsection \<open>\<^verbatim>\<open>parseTimePeriod\<close>\<close>

text \<open>
  The three errors of \<^verbatim>\<open>parseTimePeriod\<close>: \<^verbatim>\<open>"invalid time period format"\<close>,
  \<^verbatim>\<open>"invalid start time: ..."\<close> and \<^verbatim>\<open>"invalid end time: ..."\<close>.
\<close>

datatype parse_error = InvalidTimePeriodFormat | InvalidStartTime | InvalidEndTime

text \<open>
  \<^verbatim>\<open>parseTimePeriod(s)\<close>, lines 238-265. The function reads the clock
  (\<^verbatim>\<open>now := time.Now()\<close>, line 255) after both sides have parsed; that reading is the
  argument \<open>now\<close>.
\<close>

definition parseTimePeriod :: "Time \<Rightarrow> string \<Rightarrow> parse_error + TimePeriod" where
  "parseTimePeriod now s =
     (let times = strings_Split s (CHR ''-'') in
      if length times \<noteq> 2 then Inl InvalidTimePeriodFormat
      else (case time_Parse (times ! 0) of
              None \<Rightarrow> Inl InvalidStartTime
            | Some start \<Rightarrow>
                (case time_Parse (times ! 1) of
                   None \<Rightarrow> Inl InvalidEndTime
                 | Some end' \<Rightarrow>
                     (let today = Date now in
                      Inr \<lparr>Start = time_Date today (Hour start) (Minute start) 0 0 (Location start),
                           End = time_Date today (Hour end') (Minute end') 0 0 (Location end')\<rparr>))))"

subsection \<open>The client registry\<close>

text \<open>
  The table \<^verbatim>\<open>clients\<close> is the list of its rows in storage order. The schema declares
  \<^verbatim>\<open>id INTEGER PRIMARY KEY\<close>, so the rows of a table have distinct ids.
\<close>

type_synonym registry = "Client list"

definition primary_key :: "registry \<Rightarrow> bool" where
  "primary_key tbl = distinct (map ID tbl)"

text \<open>
  The handler tests the error of three database calls: \<^verbatim>\<open>db.Query\<close> (line 184),
  \<^verbatim>\<open>rows.Scan\<close> (line 194) and \<^verbatim>\<open>db.Exec\<close> (line 214). Whether a call fails is decided
  outside the program; a \<open>fault\<close> says which of them, if any, fails during one request.
  A failed statement leaves the table as it was. The handler does not test
  \<^verbatim>\<open>rows.Err()\<close> after the loop of line 191, and an iteration cut short is not among
  the faults.
\<close>

datatype fault = NoFault | QueryFault | ScanFault | ExecFault

text \<open>\<^verbatim>\<open>ORDER BY priority DESC, existing_leads ASC\<close>: the sort key of a row, compared
  lexicographically.\<close>

definition order_key :: "Client \<Rightarrow> int \<times> int" where
  "order_key c = (- Priority c, ExistingLeads c)"

text \<open>\<^verbatim>\<open>rows.Scan(&client.ID, &client.Priority, &client.ExistingLeads, &client.WorkingHours,
  &client.LeadCapacity)\<close> into a fresh \<^verbatim>\<open>Client\<close>: the name is not selected and stays
  empty.\<close>

definition scan_row :: "Client \<Rightarrow> Client" where
  "scan_row r =
     \<lparr>ID = ID r, Name = [], WorkingHours = WorkingHours r, Priority = Priority r,
      LeadCapacity = LeadCapacity r, ExistingLeads = ExistingLeads r\<rparr>"

text \<open>The rows of \<^verbatim>\<open>SELECT id, priority, existing_leads, working_hours, lead_capacity FROM
  clients ORDER BY priority DESC, existing_leads ASC\<close>; rows with equal keys keep their
  storage order.\<close>

definition select_clients :: "registry \<Rightarrow> Client list" where
  "select_clients tbl = map scan_row (sort_key order_key tbl)"

text \<open>\<^verbatim>\<open>UPDATE clients SET existing_leads = existing_leads + 1 WHERE id = ?\<close>\<close>

definition exec_update :: "registry \<Rightarrow> int \<Rightarrow> registry" where
  "exec_update tbl cid =
     map (\<lambda>r. if ID r = cid then r\<lparr>ExistingLeads := ExistingLeads r + 1\<rparr> else r) tbl"

subsection \<open>\<^verbatim>\<open>assignLead\<close>\<close>

text \<open>
  What the handler answers: status 202 with the client's id, status 500 with one of four
  messages, or status 404 \<^verbatim>\<open>"No suitable client found"\<close>.
\<close>

datatype response =
    Accepted int
  | FailedToRetrieveClients
  | FailedToRetrieveClientData
  | FailedToParseWorkingHours
  | FailedToUpdateLeadCounter
  | NoSuitableClientFound

text \<open>
  Lines 183-201: the query and the loop that scans its rows into the slice
  \<^verbatim>\<open>clients\<close>. \<^verbatim>\<open>rows.Scan\<close> is only called when there is a row.
\<close>

definition read_clients :: "fault \<Rightarrow> registry \<Rightarrow> response + Client list" where
  "read_clients flt tbl =
     (if flt = QueryFault then Inl FailedToRetrieveClients
      else if flt = ScanFault \<and> tbl \<noteq> [] then Inl FailedToRetrieveClientData
      else Inr (select_clients tbl))"

text \<open>
  Lines 203-232: the loop over \<^verbatim>\<open>clients\<close>, and the answer after it. Each call of
  \<^verbatim>\<open>parseTimePeriod\<close> that gets as far reads the clock once; \<open>clock k\<close> is the
  reading of the call for the client at position \<open>k\<close>. The second component of the
  result is the table after the request.
\<close>

fun scan_clients ::
  "Time \<Rightarrow> (nat \<Rightarrow> Time) \<Rightarrow> fault \<Rightarrow> nat \<Rightarrow> Client list \<Rightarrow> registry \<Rightarrow> response \<times> registry" where
  "scan_clients currentTime clock flt k [] tbl = (NoSuitableClientFound, tbl)"
| "scan_clients currentTime clock flt k (client # clients) tbl =
     (case parseTimePeriod (clock k) (WorkingHours client) of
        Inl err \<Rightarrow> (FailedToParseWorkingHours, tbl)
      | Inr workingHours \<Rightarrow>
          if After currentTime (Start workingHours) \<and> Before currentTime (End workingHours)
          then (if ExistingLeads client < LeadCapacity client
                then (if flt = ExecFault then (FailedToUpdateLeadCounter, tbl)
                      else (Accepted (ID client), exec_update tbl (ID client)))
                else scan_clients currentTime clock flt (Suc k) clients tbl)
          else scan_clients currentTime clock flt (Suc k) clients tbl)"

text \<open>The handler, for the clock reading \<open>currentTime\<close> of line 181.\<close>

definition assignLead ::
  "Time \<Rightarrow> (nat \<Rightarrow> Time) \<Rightarrow> fault \<Rightarrow> registry \<Rightarrow> response \<times> registry" where
  "assignLead currentTime clock flt tbl =
     (case read_clients flt tbl of
        Inl r \<Rightarrow> (r, tbl)
      | Inr clients \<Rightarrow> scan_clients currentTime clock flt 0 clients tbl)"

subsection \<open>Requests served concurrently\<close>

text \<open>
  \<^verbatim>\<open>http.ListenAndServe\<close> runs every request in a goroutine of its own, and the handler
  takes no lock and opens no transaction: its database statements are the query of line
  183 and the update of line 213, and the statements of other requests can run between
  them. A request has read the clock (line 181), or holds the slice \<^verbatim>\<open>clients\<close> it
  read, or has answered. A step of a request runs it up to and including its next
  database statement; no database call fails here.
\<close>

datatype request = Arrived Time | Holding Time "Client list" | Answered response

fun step_request :: "(nat \<Rightarrow> Time) \<Rightarrow> request \<Rightarrow> registry \<Rightarrow> request \<times> registry" where
  "step_request clock (Arrived currentTime) tbl =
     (case read_clients NoFault tbl of
        Inl r \<Rightarrow> (Answered r, tbl)
      | Inr clients \<Rightarrow> (Holding currentTime clients, tbl))"
| "step_request clock (Holding currentTime clients) tbl =
     (case scan_clients currentTime clock NoFault 0 clients tbl of
        (r, tbl') \<Rightarrow> (Answered r, tbl'))"
| "step_request clock (Answered r) tbl = (Answered r, tbl)"

text \<open>A schedule names, step by step, the request that runs next.\<close>

fun run_requests ::
  "(nat \<Rightarrow> Time) \<Rightarrow> nat list \<Rightarrow> request list \<times> registry \<Rightarrow> request list \<times> registry" where
  "run_requests clock [] st = st"
| "run_requests clock (i # sched) (reqs, tbl) =
     (if i < length reqs
      then (case step_request clock (reqs ! i) tbl of
              (rq, tbl') \<Rightarrow> run_requests clock sched (reqs[i := rq], tbl'))
      else run_requests clock sched (reqs, tbl))"

subsection \<open>Vocabulary of the properties\<close>

text \<open>
  The instant of a time, ordered lexicographically: \<^verbatim>\<open>t.After(u)\<close> is
  \<open>instant u < instant t\<close>.
\<close>

definition instant :: "Time \<Rightarrow> int \<times> int" where
  "instant t = (unixSec t, nsec t)"

text \<open>
  The text \<^verbatim>\<open>HH:MM\<close> of a clock time and the text \<^verbatim>\<open>HH:MM-HH:MM\<close> of a window, two
  digits for each number: the well-formed values of \<^verbatim>\<open>working_hours\<close>.
\<close>

definition digitChar :: "int \<Rightarrow> char" where
  "digitChar d = char_of (48 + d)"

definition clock_text :: "int \<Rightarrow> int \<Rightarrow> string" where
  "clock_text h m =
     [digitChar (h div 10), digitChar (h mod 10), CHR '':'',
      digitChar (m div 10), digitChar (m mod 10)]"

definition window_text :: "int \<Rightarrow> int \<Rightarrow> int \<Rightarrow> int \<Rightarrow> string" where
  "window_text h1 m1 h2 m2 = clock_text h1 m1 @ CHR ''-'' # clock_text h2 m2"

text \<open>
  The two ways an iteration of the loop of \<^verbatim>\<open>assignLead\<close> ends the scan, for the client
  it looks at and the clock reading \<open>now\<close> of its \<^verbatim>\<open>parseTimePeriod\<close>: the working hours
  do not parse (line 205), or the client is suitable: the hours parse, the current time
  is within them (line 211) and the client has capacity left (line 212). In every other
  case the loop goes on to the next client.
\<close>

definition unparsable :: "Time \<Rightarrow> Client \<Rightarrow> bool" where
  "unparsable now client =
     (case parseTimePeriod now (WorkingHours client) of Inl err \<Rightarrow> True | Inr workingHours \<Rightarrow> False)"

definition suitable :: "Time \<Rightarrow> Time \<Rightarrow> Client \<Rightarrow> bool" where
  "suitable currentTime now client =
     (case parseTimePeriod now (WorkingHours client) of
        Inl err \<Rightarrow> False
      | Inr workingHours \<Rightarrow>
          After currentTime (Start workingHours) \<and> Before currentTime (End workingHours) \<and>
          ExistingLeads client < LeadCapacity client)"

text \<open>
  The eligibility predicate in the words of the specification (section 4.2): \<open>now\<close> lies
  within the window, start included and end excluded, and the client has capacity left.
\<close>

definition isEligible_spec :: "Client \<Rightarrow> TimePeriod \<Rightarrow> Time \<Rightarrow> bool" where
  "isEligible_spec client period now =
     (instant (Start period) \<le> instant now \<and> instant now < instant (End period) \<and>
      ExistingLeads client < LeadCapacity client)"

text \<open>The invariant of a client's load: \<open>0 \<le> existingLeads \<le> leadCapacity\<close>.\<close>

definition within_capacity :: "Client \<Rightarrow> bool" where
  "within_capacity c = (0 \<le> ExistingLeads c \<and> ExistingLeads c \<le> LeadCapacity c)"

subsection \<open>Example data\<close>

text \<open>
  Clock times on day 20000 in UTC, the three clients of the repository's test
  (\<^verbatim>\<open>clientsTest\<close>, with the ids the table gives them), and a client with room for one
  lead.
\<close>

abbreviation (input) day20000 :: "int \<Rightarrow> int \<Rightarrow> Time" where
  "day20000 h m \<equiv> \<lparr>unixSec = 20000 * 86400 + h * 3600 + m * 60, nsec = 0, loc = 0\<rparr>"

abbreviation (input) client_one :: Client where
  "client_one \<equiv> \<lparr>ID = 1, Name = ''Client One'', WorkingHours = ''09:00-17:00'', Priority = 3,
     LeadCapacity = 10, ExistingLeads = 10\<rparr>"

abbreviation (input) client_two :: Client where
  "client_two \<equiv> \<lparr>ID = 2, Name = ''Client Two'', WorkingHours = ''12:00-20:00'', Priority = 3,
     LeadCapacity = 5, ExistingLeads = 0\<rparr>"

abbreviation (input) client_three :: Client where
  "client_three \<equiv> \<lparr>ID = 3, Name = ''Client Three'', WorkingHours = ''16:30-00:30'', Priority = 2,
     LeadCapacity = 7, ExistingLeads = 0\<rparr>"

abbreviation (input) solo :: Client where
  "solo \<equiv> \<lparr>ID = 1, Name = ''Solo'', WorkingHours = ''09:00-17:00'', Priority = 1,
     LeadCapacity = 1, ExistingLeads = 0\<rparr>"

section \<open>Properties\<close>

subsection \<open>The parser on well-formed windows\<close>

lemma of_char_digitChar:
  assumes "0 \<le> d" "d < 10"
  shows "(of_char (digitChar d) :: int) = 48 + d"
  using assms by (simp add: digitChar_def)

lemma isDigit_digitChar: "0 \<le> d \<Longrightarrow> d < 10 \<Longrightarrow> isDigit (digitChar d)"
  by (simp add: isDigit_def of_char_digitChar)

lemma digitVal_digitChar: "0 \<le> d \<Longrightarrow> d < 10 \<Longrightarrow> digitVal (digitChar d) = d"
  by (simp add: digitVal_def of_char_digitChar)

lemma digitChar_not_sep:
  assumes "0 \<le> d" "d < 10"
  shows "digitChar d \<noteq> CHR ''-''" "digitChar d \<noteq> CHR '':''"
proof -
  have "(of_char (digitChar d) :: int) \<noteq> of_char (CHR ''-'')"
    using assms by (simp add: of_char_digitChar)
  then show "digitChar d \<noteq> CHR ''-''" by auto
  have "(of_char (digitChar d) :: int) \<noteq> of_char (CHR '':'')"
    using assms by (simp add: of_char_digitChar)
  then show "digitChar d \<noteq> CHR '':''" by auto
qed

lemma two_digits:
  assumes "0 \<le> (x::int)" "x < 100"
  shows "0 \<le> x div 10" "x div 10 < 10" "0 \<le> x mod 10" "x mod 10 < 10"
  using assms by auto

lemma time_Parse_clock_text:
  assumes "0 \<le> h" "h < 24" "0 \<le> m" "m < 60"
  shows "time_Parse (clock_text h m) = Some (time_Date (-719528) h m 0 0 UTC)"
proof -
  have "h < 100" "m < 100" using assms by auto
  note d = two_digits [OF \<open>0 \<le> h\<close> \<open>h < 100\<close>] two_digits [OF \<open>0 \<le> m\<close> \<open>m < 100\<close>]
  have h: "h div 10 * 10 + h mod 10 = h" and m: "m div 10 * 10 + m mod 10 = m"
    by auto
  show ?thesis
    using assms d
    by (simp add: time_Parse_def clock_text_def isDigit_digitChar digitVal_digitChar h m)
qed

lemma strings_Split_no_sep: "sep \<notin> set w \<Longrightarrow> strings_Split w sep = [w]"
  by (induction w) auto

lemma strings_Split_append:
  "sep \<notin> set w \<Longrightarrow> strings_Split (w @ sep # rest) sep = w # strings_Split rest sep"
  by (induction w) auto

lemma length_strings_Split: "length (strings_Split s sep) = Suc (count_list s sep)"
  by (induction s) (auto split: list.splits)

lemma clock_text_no_dash:
  assumes "0 \<le> h" "h < 24" "0 \<le> m" "m < 60"
  shows "CHR ''-'' \<notin> set (clock_text h m)"
proof -
  have "h < 100" "m < 100" using assms by auto
  note d = two_digits [OF \<open>0 \<le> h\<close> \<open>h < 100\<close>] two_digits [OF \<open>0 \<le> m\<close> \<open>m < 100\<close>]
  have "digitChar (h div 10) \<noteq> CHR ''-''" "digitChar (h mod 10) \<noteq> CHR ''-''"
    "digitChar (m div 10) \<noteq> CHR ''-''" "digitChar (m mod 10) \<noteq> CHR ''-''"
    using d by (simp_all add: digitChar_not_sep)
  then show ?thesis
    by (auto simp: clock_text_def)
qed

lemma strings_Split_window_text:
  assumes "0 \<le> h1" "h1 < 24" "0 \<le> m1" "m1 < 60" "0 \<le> h2" "h2 < 24" "0 \<le> m2" "m2 < 60"
  shows "strings_Split (window_text h1 m1 h2 m2) (CHR ''-'') = [clock_text h1 m1, clock_text h2 m2]"
proof -
  have n1: "CHR ''-'' \<notin> set (clock_text h1 m1)" and n2: "CHR ''-'' \<notin> set (clock_text h2 m2)"
    using assms by (simp_all only: clock_text_no_dash not_False_eq_True)
  show ?thesis
    unfolding window_text_def
    by (simp only: strings_Split_append [OF n1] strings_Split_no_sep [OF n2])
qed

lemma clock_of_time_Date:
  assumes "0 \<le> h" "h < 24" "0 \<le> m" "m < 60"
  shows "Hour (time_Date d h m 0 0 UTC) = h" "Minute (time_Date d h m 0 0 UTC) = m"
    "Second (time_Date d h m 0 0 UTC) = 0" "Nanosecond (time_Date d h m 0 0 UTC) = 0"
    "Date (time_Date d h m 0 0 UTC) = d" "Location (time_Date d h m 0 0 UTC) = UTC"
proof -
  let ?s = "h * 3600 + m * 60"
  have r: "0 \<le> ?s" "?s < 86400" using assms by auto
  have e: "d * 86400 + h * 3600 + m * 60 = ?s + d * 86400" by simp
  have md: "(d * 86400 + h * 3600 + m * 60) mod 86400 = ?s"
    unfolding e using r by simp
  show "Hour (time_Date d h m 0 0 UTC) = h"
    using assms by (simp add: Hour_def time_Date_def UTC_def md)
  have e2: "d * 86400 + h * 3600 + m * 60 = m * 60 + (d * 24 + h) * 3600" by simp
  have "(m * 60 + (d * 24 + h) * 3600) mod 3600 = (m * 60) mod 3600"
    by (rule mod_mult_self1)
  then have "(d * 86400 + h * 3600 + m * 60) mod 3600 = m * 60"
    unfolding e2 using assms by simp
  then show "Minute (time_Date d h m 0 0 UTC) = m"
    by (simp add: Minute_def time_Date_def UTC_def)
  have e3: "d * 86400 + h * 3600 + m * 60 = (d * 1440 + h * 60 + m) * 60" by simp
  show "Second (time_Date d h m 0 0 UTC) = 0"
    by (simp add: Second_def time_Date_def UTC_def e3 del: distrib_right)
  show "Nanosecond (time_Date d h m 0 0 UTC) = 0"
    by (simp add: Nanosecond_def time_Date_def)
  have "(d * 86400 + h * 3600 + m * 60) div 86400 = d"
    unfolding e using r by simp
  then show "Date (time_Date d h m 0 0 UTC) = d"
    by (simp add: Date_def time_Date_def UTC_def)
  show "Location (time_Date d h m 0 0 UTC) = UTC"
    by (simp add: Location_def time_Date_def)
qed

lemma parseTimePeriod_window_text:
  assumes "0 \<le> h1" "h1 < 24" "0 \<le> m1" "m1 < 60" "0 \<le> h2" "h2 < 24" "0 \<le> m2" "m2 < 60"
  shows "parseTimePeriod now (window_text h1 m1 h2 m2) =
     Inr \<lparr>Start = time_Date (Date now) h1 m1 0 0 UTC, End = time_Date (Date now) h2 m2 0 0 UTC\<rparr>"
  using assms
  by (simp add: parseTimePeriod_def strings_Split_window_text time_Parse_clock_text
      clock_of_time_Date Let_def)

subsection \<open>Where the scan stops\<close>

lemma After_instant: "After t u = (instant u < instant t)"
  by (auto simp: After_def instant_def)

lemma Before_instant: "Before t u = (instant t < instant u)"
  by (auto simp: Before_def instant_def)

lemma scan_clients_skip:
  assumes "\<not> unparsable (clock k) c" "\<not> suitable currentTime (clock k) c"
  shows "scan_clients currentTime clock flt k (c # cs) tbl =
         scan_clients currentTime clock flt (Suc k) cs tbl"
  using assms by (auto simp: unparsable_def suitable_def split: sum.splits)

lemma scan_clients_unparsable:
  assumes "unparsable (clock k) c"
  shows "scan_clients currentTime clock flt k (c # cs) tbl = (FailedToParseWorkingHours, tbl)"
  using assms by (auto simp: unparsable_def split: sum.splits)

lemma scan_clients_suitable:
  assumes "suitable currentTime (clock k) c"
  shows "scan_clients currentTime clock flt k (c # cs) tbl =
         (if flt = ExecFault then (FailedToUpdateLeadCounter, tbl)
          else (Accepted (ID c), exec_update tbl (ID c)))"
  using assms by (auto simp: suitable_def split: sum.splits)

lemma scan_clients_skip_prefix:
  assumes "n \<le> length cs"
    and "\<forall>j<n. \<not> unparsable (clock (k + j)) (cs ! j) \<and> \<not> suitable currentTime (clock (k + j)) (cs ! j)"
  shows "scan_clients currentTime clock flt k cs tbl =
         scan_clients currentTime clock flt (k + n) (drop n cs) tbl"
  using assms
proof (induction n)
  case 0
  then show ?case by simp
next
  case (Suc n)
  have lt: "n < length cs" using Suc.prems(1) by simp
  have "scan_clients currentTime clock flt k cs tbl =
        scan_clients currentTime clock flt (k + n) (drop n cs) tbl"
    using Suc by simp
  also have "drop n cs = cs ! n # drop (Suc n) cs"
    using lt by (simp add: Cons_nth_drop_Suc)
  also have "scan_clients currentTime clock flt (k + n) (cs ! n # drop (Suc n) cs) tbl =
        scan_clients currentTime clock flt (Suc (k + n)) (drop (Suc n) cs) tbl"
    using Suc.prems(2) by (intro scan_clients_skip) auto
  finally show ?case by simp
qed

text \<open>The position at which a scan stops, if any.\<close>

lemma scan_stop_cases:
  fixes P :: "nat \<Rightarrow> bool"
  shows "(\<forall>j<n. P j) \<or> (\<exists>i<n. \<not> P i \<and> (\<forall>j<i. P j))"
proof (cases "\<forall>j<n. P j")
  case True
  then show ?thesis by simp
next
  case False
  then obtain m where m: "m < n" "\<not> P m" by auto
  define i where "i = (LEAST i. \<not> P i)"
  have "\<not> P i" unfolding i_def using m(2) by (rule LeastI)
  moreover have "i \<le> m" unfolding i_def using m(2) by (rule Least_le)
  moreover have "\<forall>j<i. P j" unfolding i_def using not_less_Least by blast
  ultimately have "i < n \<and> \<not> P i \<and> (\<forall>j<i. P j)" using m(1) by simp
  then show ?thesis by blast
qed

lemma scan_clients_none:
  assumes "\<forall>j<length cs. \<not> unparsable (clock (k + j)) (cs ! j) \<and> \<not> suitable currentTime (clock (k + j)) (cs ! j)"
  shows "scan_clients currentTime clock flt k cs tbl = (NoSuitableClientFound, tbl)"
  using scan_clients_skip_prefix [of "length cs" cs clock k currentTime flt tbl] assms
  by simp

lemma scan_clients_stop_unparsable:
  assumes "i < length cs" "unparsable (clock (k + i)) (cs ! i)"
    and "\<forall>j<i. \<not> unparsable (clock (k + j)) (cs ! j) \<and> \<not> suitable currentTime (clock (k + j)) (cs ! j)"
  shows "scan_clients currentTime clock flt k cs tbl = (FailedToParseWorkingHours, tbl)"
proof -
  have "scan_clients currentTime clock flt k cs tbl =
        scan_clients currentTime clock flt (k + i) (cs ! i # drop (Suc i) cs) tbl"
    using scan_clients_skip_prefix [of i cs clock k currentTime flt tbl] assms
    by (simp add: Cons_nth_drop_Suc)
  then show ?thesis using assms(2) by (simp only: scan_clients_unparsable)
qed

lemma scan_clients_stop_suitable:
  assumes "i < length cs" "suitable currentTime (clock (k + i)) (cs ! i)"
    and "\<forall>j<i. \<not> unparsable (clock (k + j)) (cs ! j) \<and> \<not> suitable currentTime (clock (k + j)) (cs ! j)"
  shows "scan_clients currentTime clock flt k cs tbl =
         (if flt = ExecFault then (FailedToUpdateLeadCounter, tbl)
          else (Accepted (ID (cs ! i)), exec_update tbl (ID (cs ! i))))"
proof -
  have "scan_clients currentTime clock flt k cs tbl =
        scan_clients currentTime clock flt (k + i) (cs ! i # drop (Suc i) cs) tbl"
    using scan_clients_skip_prefix [of i cs clock k currentTime flt tbl] assms
    by (simp add: Cons_nth_drop_Suc)
  then show ?thesis using assms(2) by (simp only: scan_clients_suitable)
qed


text \<open>What an accepted scan tells.\<close>

lemma scan_clients_Accepted:
  assumes "scan_clients currentTime clock flt k cs tbl = (Accepted cid, tbl')"
  shows "\<exists>i<length cs. ID (cs ! i) = cid \<and> suitable currentTime (clock (k + i)) (cs ! i) \<and>
           (\<forall>j<i. \<not> unparsable (clock (k + j)) (cs ! j) \<and> \<not> suitable currentTime (clock (k + j)) (cs ! j)) \<and>
           flt \<noteq> ExecFault \<and> tbl' = exec_update tbl cid"
proof -
  let ?P = "\<lambda>j. \<not> unparsable (clock (k + j)) (cs ! j) \<and> \<not> suitable currentTime (clock (k + j)) (cs ! j)"
  from scan_stop_cases [of "length cs" ?P]
  consider (none) "\<forall>j<length cs. ?P j" | (stop) i where "i < length cs" "\<not> ?P i" "\<forall>j<i. ?P j"
    by blast
  then show ?thesis
  proof cases
    case none
    then have "scan_clients currentTime clock flt k cs tbl = (NoSuitableClientFound, tbl)"
      by (rule scan_clients_none)
    with assms show ?thesis by simp
  next
    case stop
    show ?thesis
    proof (cases "unparsable (clock (k + i)) (cs ! i)")
      case True
      then have "scan_clients currentTime clock flt k cs tbl = (FailedToParseWorkingHours, tbl)"
        using stop by (intro scan_clients_stop_unparsable) auto
      with assms show ?thesis by simp
    next
      case False
      then have s: "suitable currentTime (clock (k + i)) (cs ! i)" using stop(2) by simp
      have "scan_clients currentTime clock flt k cs tbl =
         (if flt = ExecFault then (FailedToUpdateLeadCounter, tbl)
          else (Accepted (ID (cs ! i)), exec_update tbl (ID (cs ! i))))"
        using stop(1) s stop(3) by (rule scan_clients_stop_suitable)
      with assms have "flt \<noteq> ExecFault" "ID (cs ! i) = cid" "tbl' = exec_update tbl cid"
        by (auto split: if_splits)
      with stop s show ?thesis by blast
    qed
  qed
qed

lemma scan_clients_unchanged:
  assumes "scan_clients currentTime clock flt k cs tbl = (r, tbl')" "\<forall>cid. r \<noteq> Accepted cid"
  shows "tbl' = tbl"
  using assms
  by (induction cs arbitrary: k) (auto split: sum.splits if_splits)

subsection \<open>Claims about \<^verbatim>\<open>parseTimePeriod\<close>\<close>

text \<open>
  Claim C6. For every window text \<^verbatim>\<open>HH:MM-HH:MM\<close> of two valid clock times with the start
  earlier than the end, \<^verbatim>\<open>parseTimePeriod\<close> succeeds; the hour and minute of the start
  and of the end of the period are those of the text, both lie on the calendar date of
  \<open>now\<close> in its own location, their seconds and nanoseconds are zero, and the start is
  before the end.
\<close>

theorem parseTimePeriod_valid_window:
  assumes "0 \<le> h1" "h1 < 24" "0 \<le> m1" "m1 < 60" "0 \<le> h2" "h2 < 24" "0 \<le> m2" "m2 < 60"
    and "h1 * 60 + m1 < h2 * 60 + m2"
  shows "\<exists>p. parseTimePeriod now (window_text h1 m1 h2 m2) = Inr p \<and>
           Hour (Start p) = h1 \<and> Minute (Start p) = m1 \<and>
           Hour (End p) = h2 \<and> Minute (End p) = m2 \<and>
           Date (Start p) = Date now \<and> Date (End p) = Date now \<and>
           Second (Start p) = 0 \<and> Nanosecond (Start p) = 0 \<and>
           Second (End p) = 0 \<and> Nanosecond (End p) = 0 \<and>
           Before (Start p) (End p)"
proof -
  let ?p = "\<lparr>Start = time_Date (Date now) h1 m1 0 0 UTC, End = time_Date (Date now) h2 m2 0 0 UTC\<rparr>"
  have p: "parseTimePeriod now (window_text h1 m1 h2 m2) = Inr ?p"
    using assms(1-8) by (rule parseTimePeriod_window_text)
  have "h1 * 3600 + m1 * 60 < h2 * 3600 + m2 * 60"
    using assms(9) by simp
  then have b: "Before (Start ?p) (End ?p)"
    by (simp add: Before_def time_Date_def)
  show ?thesis
    using p b assms(1-8) by (simp add: clock_of_time_Date)
qed

text \<open>The window \<^verbatim>\<open>09:00-17:30\<close>, read at 13:53:20 on day 20000 in a zone two hours east
  of UTC.\<close>

theorem parseTimePeriod_valid_window_witness:
  "window_text 9 0 17 30 = ''09:00-17:30'' \<and>
   (\<exists>p. parseTimePeriod \<lparr>unixSec = 1728000000 + 50000, nsec = 7, loc = 7200\<rparr> ''09:00-17:30'' = Inr p \<and>
      Hour (Start p) = 9 \<and> Minute (Start p) = 0 \<and> Hour (End p) = 17 \<and> Minute (End p) = 30 \<and>
      Date (Start p) = 20000 \<and> Date (End p) = 20000 \<and>
      Second (Start p) = 0 \<and> Nanosecond (Start p) = 0 \<and>
      Second (End p) = 0 \<and> Nanosecond (End p) = 0 \<and> Before (Start p) (End p))"
proof -
  have w: "window_text 9 0 17 30 = ''09:00-17:30''"
    by (simp add: window_text_def clock_text_def digitChar_def char_of_def)
  have d: "Date \<lparr>unixSec = 1728000000 + 50000, nsec = 7, loc = 7200\<rparr> = 20000"
    by (simp add: Date_def)
  show ?thesis
    using parseTimePeriod_valid_window [of 9 0 17 30 "\<lparr>unixSec = 1728000000 + 50000, nsec = 7, loc = 7200\<rparr>"]
    unfolding w d by simp
qed

text \<open>
  Claim C7. \<^verbatim>\<open>parseTimePeriod\<close> fails with the format error whenever splitting the text on
  \<^verbatim>\<open>-\<close> does not give exactly two parts; with two parts, it fails with the start-time
  error when the first does not parse as a clock time, and with the end-time error when
  the first parses and the second does not. \<^verbatim>\<open>"non-time-format"\<close> gives the format
  error, not a period.
\<close>

theorem parseTimePeriod_errors:
  "(length (strings_Split s (CHR ''-'')) \<noteq> 2 \<longrightarrow>
      parseTimePeriod now s = Inl InvalidTimePeriodFormat) \<and>
   (strings_Split s (CHR ''-'') = [a, b] \<and> time_Parse a = None \<longrightarrow>
      parseTimePeriod now s = Inl InvalidStartTime) \<and>
   (strings_Split s (CHR ''-'') = [a, b] \<and> time_Parse a \<noteq> None \<and> time_Parse b = None \<longrightarrow>
      parseTimePeriod now s = Inl InvalidEndTime) \<and>
   parseTimePeriod now ''non-time-format'' = Inl InvalidTimePeriodFormat"
  by (auto simp: parseTimePeriod_def)

text \<open>One text for each of the three errors, and the text of the repository's test.\<close>

theorem parseTimePeriod_errors_witness:
  "parseTimePeriod \<lparr>unixSec = 1728050000, nsec = 7, loc = 7200\<rparr> ''0900'' = Inl InvalidTimePeriodFormat \<and>
   parseTimePeriod \<lparr>unixSec = 1728050000, nsec = 7, loc = 7200\<rparr> ''09:xx-17:00'' = Inl InvalidStartTime \<and>
   parseTimePeriod \<lparr>unixSec = 1728050000, nsec = 7, loc = 7200\<rparr> ''09:00-25:00'' = Inl InvalidEndTime \<and>
   parseTimePeriod \<lparr>unixSec = 1728050000, nsec = 7, loc = 7200\<rparr> ''non-time-format'' = Inl InvalidTimePeriodFormat"
proof -
  let ?now = "\<lparr>unixSec = 1728050000, nsec = 7, loc = 7200\<rparr>"
  have 1: "length (strings_Split ''0900'' (CHR ''-'')) \<noteq> 2" by simp
  have 2: "strings_Split ''09:xx-17:00'' (CHR ''-'') = [''09:xx'', ''17:00''] \<and> time_Parse ''09:xx'' = None"
    by (simp add: time_Parse_def isDigit_def digitVal_def)
  have 3: "strings_Split ''09:00-25:00'' (CHR ''-'') = [''09:00'', ''25:00''] \<and>
      time_Parse ''09:00'' \<noteq> None \<and> time_Parse ''25:00'' = None"
    by (simp add: time_Parse_def isDigit_def digitVal_def)
  show ?thesis
    using parseTimePeriod_errors [where s = "''0900''" and now = ?now] 1
      parseTimePeriod_errors [where s = "''09:xx-17:00''" and a = "''09:xx''" and b = "''17:00''" and now = ?now] 2
      parseTimePeriod_errors [where s = "''09:00-25:00''" and a = "''09:00''" and b = "''25:00''" and now = ?now] 3
    by blast
qed

text \<open>
  Claim C8. For every window text of two valid clock times of which the end is earlier
  than the start, \<^verbatim>\<open>parseTimePeriod\<close> succeeds and changes nothing: both times keep their
  hour and minute and lie on the date of \<open>now\<close>, so the end of the period is before its
  start. No instant is after the start and before the end, a client with such working
  hours is suitable at no instant, and the loop of \<^verbatim>\<open>assignLead\<close> passes over it.
\<close>

theorem parseTimePeriod_end_before_start:
  assumes "0 \<le> h1" "h1 < 24" "0 \<le> m1" "m1 < 60" "0 \<le> h2" "h2 < 24" "0 \<le> m2" "m2 < 60"
    and "h2 * 60 + m2 < h1 * 60 + m1"
  shows "(\<exists>p. parseTimePeriod now (window_text h1 m1 h2 m2) = Inr p \<and>
            Date (Start p) = Date now \<and> Date (End p) = Date now \<and>
            Hour (Start p) = h1 \<and> Minute (Start p) = m1 \<and>
            Hour (End p) = h2 \<and> Minute (End p) = m2 \<and>
            Before (End p) (Start p) \<and>
            (\<forall>t. \<not> (After t (Start p) \<and> Before t (End p)))) \<and>
         (\<forall>t. \<not> suitable t now (c\<lparr>WorkingHours := window_text h1 m1 h2 m2\<rparr>)) \<and>
         scan_clients currentTime clock flt k (c\<lparr>WorkingHours := window_text h1 m1 h2 m2\<rparr> # clients) tbl =
           scan_clients currentTime clock flt (Suc k) clients tbl"
proof -
  let ?w = "window_text h1 m1 h2 m2"
  let ?p = "\<lambda>now. \<lparr>Start = time_Date (Date now) h1 m1 0 0 UTC, End = time_Date (Date now) h2 m2 0 0 UTC\<rparr>"
  have p: "parseTimePeriod now ?w = Inr (?p now)" for now
    using assms(1-8) by (rule parseTimePeriod_window_text)
  have lt: "h2 * 3600 + m2 * 60 < h1 * 3600 + m1 * 60"
    using assms(9) by simp
  then have b: "Before (End (?p now)) (Start (?p now))" for now
    by (simp add: Before_def time_Date_def)
  have n: "\<not> (After t (Start (?p now)) \<and> Before t (End (?p now)))" for t now
    using lt by (auto simp: After_def Before_def time_Date_def)
  have ns: "\<not> suitable t now (c\<lparr>WorkingHours := ?w\<rparr>)" for t now
  proof -
    have "suitable t now (c\<lparr>WorkingHours := ?w\<rparr>) =
        (After t (Start (?p now)) \<and> Before t (End (?p now)) \<and> ExistingLeads c < LeadCapacity c)"
      by (simp add: suitable_def p)
    then show ?thesis using n [of t now] by blast
  qed
  have np: "\<not> unparsable now (c\<lparr>WorkingHours := ?w\<rparr>)" for now
    by (simp add: unparsable_def p)
  have 1: "\<exists>p. parseTimePeriod now ?w = Inr p \<and>
            Date (Start p) = Date now \<and> Date (End p) = Date now \<and>
            Hour (Start p) = h1 \<and> Minute (Start p) = m1 \<and>
            Hour (End p) = h2 \<and> Minute (End p) = m2 \<and>
            Before (End p) (Start p) \<and>
            (\<forall>t. \<not> (After t (Start p) \<and> Before t (End p)))"
    using p [of now] b [of now] n [of _ now] assms(1-8) by (simp add: clock_of_time_Date)
  have 3: "scan_clients currentTime clock flt k (c\<lparr>WorkingHours := ?w\<rparr> # clients) tbl =
           scan_clients currentTime clock flt (Suc k) clients tbl"
    using np ns by (rule scan_clients_skip)
  show ?thesis using 1 ns 3 by blast
qed

text \<open>The window \<^verbatim>\<open>16:30-00:30\<close> of the third client of the repository's test, scanned at
  17:00.\<close>

theorem parseTimePeriod_end_before_start_witness:
  "window_text 16 30 0 30 = ''16:30-00:30'' \<and>
   (\<exists>p. parseTimePeriod \<lparr>unixSec = 1728050000, nsec = 7, loc = 7200\<rparr> ''16:30-00:30'' = Inr p \<and>
      Before (End p) (Start p)) \<and>
   scan_clients \<lparr>unixSec = 1728061200, nsec = 0, loc = 0\<rparr> (\<lambda>k. \<lparr>unixSec = 1728061200, nsec = 0, loc = 0\<rparr>) NoFault 0
     [\<lparr>ID = 3, Name = [], WorkingHours = ''16:30-00:30'', Priority = 2, LeadCapacity = 7, ExistingLeads = 0\<rparr>] [] =
     (NoSuitableClientFound, [])"
proof -
  have w: "window_text 16 30 0 30 = ''16:30-00:30''"
    by (simp add: window_text_def clock_text_def digitChar_def char_of_def)
  let ?c = "\<lparr>ID = 3, Name = [], WorkingHours = ''16:30-00:30'', Priority = 2, LeadCapacity = 7, ExistingLeads = 0\<rparr>"
  have c: "?c\<lparr>WorkingHours := ''16:30-00:30''\<rparr> = ?c" by simp
  show ?thesis
    using parseTimePeriod_end_before_start [of 16 30 0 30 "\<lparr>unixSec = 1728050000, nsec = 7, loc = 7200\<rparr>" ?c
        "\<lparr>unixSec = 1728061200, nsec = 0, loc = 0\<rparr>" "\<lambda>k. \<lparr>unixSec = 1728061200, nsec = 0, loc = 0\<rparr>" NoFault 0 "[]" "[]"]
    unfolding w c by auto
qed

subsection \<open>The registry\<close>

lemma scan_row_fields [simp]:
  "ID (scan_row r) = ID r" "WorkingHours (scan_row r) = WorkingHours r"
  "Priority (scan_row r) = Priority r" "LeadCapacity (scan_row r) = LeadCapacity r"
  "ExistingLeads (scan_row r) = ExistingLeads r"
  by (simp_all add: scan_row_def)

lemma order_key_scan_row [simp]: "order_key (scan_row r) = order_key r"
  by (simp add: order_key_def)

lemma length_select_clients [simp]: "length (select_clients tbl) = length tbl"
  by (simp add: select_clients_def)

lemma set_select_clients: "set (select_clients tbl) = scan_row ` set tbl"
  by (simp add: select_clients_def)

lemma sorted_select_clients: "sorted (map order_key (select_clients tbl))"
proof -
  have "map order_key (select_clients tbl) = map order_key (sort_key order_key tbl)"
    by (simp add: select_clients_def)
  then show ?thesis by (simp only: sorted_sort_key)
qed

lemma sorted_key_ordered:
  assumes "sorted (map order_key cs)" "i \<le> j" "j < length cs"
  shows "Priority (cs ! j) \<le> Priority (cs ! i) \<and>
         (Priority (cs ! j) = Priority (cs ! i) \<longrightarrow> ExistingLeads (cs ! i) \<le> ExistingLeads (cs ! j))"
proof -
  have "map order_key cs ! i \<le> map order_key cs ! j"
    using assms by (simp add: sorted_iff_nth_mono)
  then have "order_key (cs ! i) \<le> order_key (cs ! j)"
    using assms by simp
  then show ?thesis
    by (auto simp: order_key_def)
qed

lemma select_clients_ordered:
  assumes "i \<le> j" "j < length (select_clients tbl)"
  shows "Priority (select_clients tbl ! j) \<le> Priority (select_clients tbl ! i) \<and>
         (Priority (select_clients tbl ! j) = Priority (select_clients tbl ! i) \<longrightarrow>
            ExistingLeads (select_clients tbl ! i) \<le> ExistingLeads (select_clients tbl ! j))"
  using sorted_key_ordered [OF sorted_select_clients assms] .

lemma select_clients_nth_row:
  assumes "i < length tbl"
  shows "\<exists>r\<in>set tbl. select_clients tbl ! i = scan_row r"
proof -
  have "select_clients tbl ! i \<in> set (select_clients tbl)"
    using assms by simp
  then show ?thesis by (auto simp: set_select_clients)
qed

lemma select_clients_row_nth:
  assumes "r \<in> set tbl"
  shows "\<exists>j<length tbl. select_clients tbl ! j = scan_row r"
proof -
  have "scan_row r \<in> set (select_clients tbl)"
    using assms by (simp add: set_select_clients)
  then show ?thesis by (auto simp: in_set_conv_nth)
qed

lemma length_exec_update [simp]: "length (exec_update tbl cid) = length tbl"
  by (simp add: exec_update_def)

lemma nth_exec_update:
  "n < length tbl \<Longrightarrow> exec_update tbl cid ! n =
     (if ID (tbl ! n) = cid then (tbl ! n)\<lparr>ExistingLeads := ExistingLeads (tbl ! n) + 1\<rparr> else tbl ! n)"
  by (simp add: exec_update_def)

lemma map_ID_exec_update [simp]: "map ID (exec_update tbl cid) = map ID tbl"
  by (simp add: exec_update_def)

lemma primary_key_unique:
  assumes "primary_key tbl" "n < length tbl" "m < length tbl" "ID (tbl ! n) = ID (tbl ! m)"
  shows "n = m"
proof -
  have "map ID tbl ! n = map ID tbl ! m" using assms by simp
  moreover have "distinct (map ID tbl)" using assms(1) by (simp add: primary_key_def)
  ultimately show ?thesis
    using assms(2,3) nth_eq_iff_index_eq [of "map ID tbl" n m] by simp
qed

lemma suitable_scan_row [simp]: "suitable currentTime now (scan_row r) = suitable currentTime now r"
  by (simp add: suitable_def split: sum.splits)

lemma unparsable_scan_row [simp]: "unparsable now (scan_row r) = unparsable now r"
  by (simp add: unparsable_def)

lemma suitable_capacity: "suitable currentTime now c \<Longrightarrow> ExistingLeads c < LeadCapacity c"
  by (auto simp: suitable_def split: sum.splits)

lemma assignLead_scan:
  assumes "assignLead currentTime clock flt tbl = (Accepted cid, tbl')"
  shows "scan_clients currentTime clock flt 0 (select_clients tbl) tbl = (Accepted cid, tbl')"
  using assms by (auto simp: assignLead_def read_clients_def split: if_splits)

lemma assignLead_unchanged:
  assumes "assignLead currentTime clock flt tbl = (r, tbl')" "\<forall>cid. r \<noteq> Accepted cid"
  shows "tbl' = tbl"
proof (cases "read_clients flt tbl")
  case (Inl e)
  then show ?thesis using assms by (simp add: assignLead_def)
next
  case (Inr clients)
  then have "scan_clients currentTime clock flt 0 clients tbl = (r, tbl')"
    using assms by (simp add: assignLead_def)
  then show ?thesis using assms(2) by (rule scan_clients_unchanged)
qed

lemma assignLead_Accepted_row:
  assumes "assignLead currentTime clock flt tbl = (Accepted cid, tbl')"
  shows "tbl' = exec_update tbl cid \<and>
         (\<exists>r\<in>set tbl. ID r = cid \<and> ExistingLeads r < LeadCapacity r)"
proof -
  let ?s = "select_clients tbl"
  have "scan_clients currentTime clock flt 0 ?s tbl = (Accepted cid, tbl')"
    using assms by (rule assignLead_scan)
  from scan_clients_Accepted [OF this]
  obtain i where i: "i < length tbl" "ID (?s ! i) = cid" "suitable currentTime (clock i) (?s ! i)"
    and upd: "tbl' = exec_update tbl cid"
    by auto
  obtain r where r: "r \<in> set tbl" "?s ! i = scan_row r"
    using select_clients_nth_row [OF i(1)] by blast
  have "ExistingLeads r < LeadCapacity r"
    using suitable_capacity [OF i(3)] r(2) by simp
  moreover have "ID r = cid" using i(2) r(2) by simp
  ultimately show ?thesis using upd r(1) by blast
qed

subsection \<open>The examples, evaluated\<close>

lemma parse_0900_1700:
  "parseTimePeriod (day20000 h m) ''09:00-17:00'' = Inr \<lparr>Start = day20000 9 0, End = day20000 17 0\<rparr>"
  if "0 \<le> h" "h < 24" "0 \<le> m" "m < 60"
proof -
  have "Date (day20000 h m) = 20000"
    using that by (simp add: Date_def)
  then show ?thesis
  by (simp add: parseTimePeriod_def time_Parse_def isDigit_def digitVal_def
      Hour_def Minute_def Location_def UTC_def time_Date_def)
qed

lemma parse_examples:
  assumes "Date now = 20000"
  shows "parseTimePeriod now ''09:00-17:00'' = Inr \<lparr>Start = day20000 9 0, End = day20000 17 0\<rparr>"
    "parseTimePeriod now ''12:00-20:00'' = Inr \<lparr>Start = day20000 12 0, End = day20000 20 0\<rparr>"
    "parseTimePeriod now ''16:30-00:30'' = Inr \<lparr>Start = day20000 16 30, End = day20000 0 30\<rparr>"
  using assms
  by (simp_all add: parseTimePeriod_def time_Parse_def isDigit_def digitVal_def
      Hour_def Minute_def Location_def UTC_def time_Date_def)

lemma Date_day20000: "Date (day20000 14 0) = 20000"
  by (simp add: Date_def)

lemma select_test_clients:
  "select_clients [client_one, client_two, client_three] =
     [scan_row client_two, scan_row client_one, scan_row client_three]"
  by (simp add: select_clients_def order_key_def)

lemma assignLead_test_clients:
  "assignLead (day20000 14 0) (\<lambda>k. day20000 14 0) NoFault [client_one, client_two, client_three] =
     (Accepted 2, [client_one, client_two\<lparr>ExistingLeads := 1\<rparr>, client_three])"
  using parse_examples [OF Date_day20000]
  by (simp add: assignLead_def read_clients_def select_test_clients scan_row_def
      After_def Before_def exec_update_def)

lemma suitable_test_clients:
  "suitable (day20000 14 0) (day20000 14 0) client_two"
  "\<not> suitable (day20000 14 0) (day20000 14 0) client_one"
  "\<not> suitable (day20000 14 0) (day20000 14 0) client_three"
  using parse_examples [OF Date_day20000]
  by (simp_all add: suitable_def After_def Before_def)

lemma assignLead_two_suitable:
  "assignLead (day20000 14 0) (\<lambda>k. day20000 14 0) NoFault
     [client_three\<lparr>WorkingHours := ''09:00-17:00''\<rparr>, client_two] =
     (Accepted 2, [client_three\<lparr>WorkingHours := ''09:00-17:00''\<rparr>, client_two\<lparr>ExistingLeads := 1\<rparr>])"
  using parse_examples [OF Date_day20000]
  by (simp add: assignLead_def read_clients_def select_clients_def order_key_def scan_row_def
      After_def Before_def exec_update_def)

lemma primary_key_test_clients: "primary_key [client_one, client_two, client_three]"
  by (simp add: primary_key_def)

lemma serial_request:
  "run_requests clock [0, 0] ([Arrived currentTime], tbl) =
     ([Answered (fst (assignLead currentTime clock NoFault tbl))],
      snd (assignLead currentTime clock NoFault tbl))"
  by (simp add: assignLead_def read_clients_def split: prod.splits)

lemma select_solo: "select_clients [solo] = [scan_row solo]"
  by (simp add: select_clients_def)

lemma scan_solo:
  "scan_clients (day20000 14 0) (\<lambda>k. day20000 14 0) NoFault 0 [scan_row solo] [solo] =
     (Accepted 1, [solo\<lparr>ExistingLeads := 1\<rparr>])"
  using parse_examples [OF Date_day20000]
  by (simp add: scan_row_def After_def Before_def exec_update_def)



lemma scan_solo_stale:
  "scan_clients (day20000 14 0) (\<lambda>k. day20000 14 0) NoFault 0 [scan_row solo] [solo\<lparr>ExistingLeads := 1\<rparr>] =
     (Accepted 1, [solo\<lparr>ExistingLeads := 2\<rparr>])"
  using parse_examples [OF Date_day20000]
  by (simp add: scan_row_def After_def Before_def exec_update_def)

subsection \<open>Claims about \<^verbatim>\<open>assignLead\<close>\<close>

text \<open>
  Claim C2, amended. For a client whose working hours parse to a period, the test of the
  loop holds if and only if the current time lies strictly between the start and the end
  of the period (both bounds excluded: line 211 uses \<^verbatim>\<open>After\<close> and \<^verbatim>\<open>Before\<close>) and the
  client's existing leads are below its capacity. Both conditions are required; when one
  fails the loop goes on to the next client with the table as it was.
\<close>

theorem scan_clients_iteration:
  assumes "parseTimePeriod (clock k) (WorkingHours client) = Inr workingHours"
  shows "(suitable currentTime (clock k) client \<longleftrightarrow>
            instant (Start workingHours) < instant currentTime \<and>
            instant currentTime < instant (End workingHours) \<and>
            ExistingLeads client < LeadCapacity client) \<and>
         scan_clients currentTime clock flt k (client # clients) tbl =
           (if instant (Start workingHours) < instant currentTime \<and>
               instant currentTime < instant (End workingHours) \<and>
               ExistingLeads client < LeadCapacity client
            then (if flt = ExecFault then (FailedToUpdateLeadCounter, tbl)
                  else (Accepted (ID client), exec_update tbl (ID client)))
            else scan_clients currentTime clock flt (Suc k) clients tbl)"
  using assms by (simp add: suitable_def After_instant Before_instant)

text \<open>A client with the window \<^verbatim>\<open>09:00-17:00\<close> and room for one lead, at 14:00.\<close>

theorem scan_clients_iteration_witness:
  "parseTimePeriod (day20000 14 0) (WorkingHours solo) = Inr \<lparr>Start = day20000 9 0, End = day20000 17 0\<rparr> \<and>
   suitable (day20000 14 0) (day20000 14 0) solo \<and>
   scan_clients (day20000 14 0) (\<lambda>k. day20000 14 0) NoFault 0 [solo] [solo] =
     (Accepted 1, [solo\<lparr>ExistingLeads := 1\<rparr>])"
proof -
  have p: "parseTimePeriod (day20000 14 0) (WorkingHours solo) = Inr \<lparr>Start = day20000 9 0, End = day20000 17 0\<rparr>"
    using parse_0900_1700 [of 14 0] by simp
  show ?thesis
    using scan_clients_iteration [OF p, where currentTime = "day20000 14 0" and flt = NoFault
        and clients = "[]" and tbl = "[solo]"] p
    by (simp add: instant_def exec_update_def)
qed

text \<open>
  Claim C2 as stated fails at the start of the window: at 09:00:00 exactly the predicate
  of the specification holds for the window \<^verbatim>\<open>09:00-17:00\<close>, and the handler finds no
  suitable client.
\<close>

theorem eligible_at_window_start_counterexample:
  "parseTimePeriod (day20000 9 0) (WorkingHours solo) = Inr \<lparr>Start = day20000 9 0, End = day20000 17 0\<rparr> \<and>
   isEligible_spec solo \<lparr>Start = day20000 9 0, End = day20000 17 0\<rparr> (day20000 9 0) \<and>
   \<not> suitable (day20000 9 0) (day20000 9 0) solo \<and>
   assignLead (day20000 9 0) (\<lambda>k. day20000 9 0) NoFault [solo] = (NoSuitableClientFound, [solo])"
proof -
  have p: "parseTimePeriod (day20000 9 0) (WorkingHours solo) = Inr \<lparr>Start = day20000 9 0, End = day20000 17 0\<rparr>"
    using parse_0900_1700 [of 9 0] by simp
  have e: "isEligible_spec solo \<lparr>Start = day20000 9 0, End = day20000 17 0\<rparr> (day20000 9 0)"
    by (simp add: isEligible_spec_def instant_def)
  have s: "\<not> suitable (day20000 9 0) (day20000 9 0) solo"
    using p by (simp add: suitable_def After_def)
  have a: "assignLead (day20000 9 0) (\<lambda>k. day20000 9 0) NoFault [solo] = (NoSuitableClientFound, [solo])"
    using p by (simp add: assignLead_def read_clients_def select_clients_def scan_row_def After_def)
  from p e s a show ?thesis by blast
qed

text \<open>
  Claim C3. The snapshot that \<^verbatim>\<open>assignLead\<close> scans is ordered by priority descending and,
  among equal priorities, by existing leads ascending, whatever the storage order of the
  table. Hence, for every snapshot in that order (however rows with equal keys are
  arranged), when a lead is assigned every suitable client of the snapshot stands at or
  after the assigned one: its priority is not higher, and with equal priority its
  existing leads are not fewer. The third part says the same of \<^verbatim>\<open>assignLead\<close> and the
  rows of the table.
\<close>

theorem assignLead_prefers_priority:
  "(\<forall>i j. i \<le> j \<and> j < length (select_clients tbl) \<longrightarrow>
      Priority (select_clients tbl ! j) \<le> Priority (select_clients tbl ! i) \<and>
      (Priority (select_clients tbl ! j) = Priority (select_clients tbl ! i) \<longrightarrow>
         ExistingLeads (select_clients tbl ! i) \<le> ExistingLeads (select_clients tbl ! j))) \<and>
   (sorted (map order_key clients) \<and>
    scan_clients currentTime clock flt 0 clients tbl = (Accepted cid, tbl') \<longrightarrow>
      (\<forall>j<length clients. suitable currentTime (clock j) (clients ! j) \<longrightarrow>
         (\<exists>i\<le>j. ID (clients ! i) = cid \<and>
            suitable currentTime (clock i) (clients ! i) \<and>
            Priority (clients ! j) \<le> Priority (clients ! i) \<and>
            (Priority (clients ! j) = Priority (clients ! i) \<longrightarrow>
               ExistingLeads (clients ! i) \<le> ExistingLeads (clients ! j))))) \<and>
   (assignLead currentTime clock flt tbl = (Accepted cid, tbl') \<longrightarrow>
      (\<forall>r\<in>set tbl. (\<forall>k. suitable currentTime (clock k) r) \<longrightarrow>
         (\<exists>c\<in>set tbl. ID c = cid \<and> ExistingLeads c < LeadCapacity c \<and>
            Priority r \<le> Priority c \<and>
            (Priority r = Priority c \<longrightarrow> ExistingLeads c \<le> ExistingLeads r))))"
proof -
  let ?s = "select_clients tbl"
  have ord: "\<forall>i j. i \<le> j \<and> j < length ?s \<longrightarrow>
            Priority (?s ! j) \<le> Priority (?s ! i) \<and>
            (Priority (?s ! j) = Priority (?s ! i) \<longrightarrow> ExistingLeads (?s ! i) \<le> ExistingLeads (?s ! j))"
    using select_clients_ordered by blast
  have pos: "\<exists>i\<le>j. ID (cs ! i) = cid \<and> suitable currentTime (clock i) (cs ! i) \<and>
               Priority (cs ! j) \<le> Priority (cs ! i) \<and>
               (Priority (cs ! j) = Priority (cs ! i) \<longrightarrow> ExistingLeads (cs ! i) \<le> ExistingLeads (cs ! j))"
    if srt: "sorted (map order_key cs)"
      and acc: "scan_clients currentTime clock flt 0 cs tbl = (Accepted cid, tbl')"
      and j: "j < length cs" "suitable currentTime (clock j) (cs ! j)" for cs j
  proof -
    from scan_clients_Accepted [OF acc]
    obtain i where i: "i < length cs" "ID (cs ! i) = cid" "suitable currentTime (clock i) (cs ! i)"
      and before: "\<forall>j<i. \<not> suitable currentTime (clock j) (cs ! j)"
      by auto
    have le: "i \<le> j" using before j(2) by (meson not_le)
    show ?thesis
      using sorted_key_ordered [OF srt le j(1)] le i by blast
  qed
  have row: "\<exists>c\<in>set tbl. ID c = cid \<and> ExistingLeads c < LeadCapacity c \<and> Priority r \<le> Priority c \<and>
               (Priority r = Priority c \<longrightarrow> ExistingLeads c \<le> ExistingLeads r)"
    if acc: "assignLead currentTime clock flt tbl = (Accepted cid, tbl')"
      and r: "r \<in> set tbl" "\<forall>k. suitable currentTime (clock k) r" for r
  proof -
    have sc: "scan_clients currentTime clock flt 0 ?s tbl = (Accepted cid, tbl')"
      using acc by (rule assignLead_scan)
    obtain j where j: "j < length ?s" "?s ! j = scan_row r"
      using select_clients_row_nth [OF r(1)] by auto
    then have "suitable currentTime (clock j) (?s ! j)" using r(2) by simp
    from pos [OF sorted_select_clients sc j(1) this] obtain i' where i': "i' \<le> j" "ID (?s ! i') = cid"
      "suitable currentTime (clock i') (?s ! i')"
      "Priority (?s ! j) \<le> Priority (?s ! i')"
      "Priority (?s ! j) = Priority (?s ! i') \<longrightarrow> ExistingLeads (?s ! i') \<le> ExistingLeads (?s ! j)"
      by blast
    have "i' < length tbl" using i'(1) j(1) by simp
    then obtain c where c: "c \<in> set tbl" "?s ! i' = scan_row c"
      using select_clients_nth_row by blast
    have "ExistingLeads c < LeadCapacity c"
      using suitable_capacity [OF i'(3)] c(2) by simp
    then show ?thesis
      using c i' j(2) by auto
  qed
  show ?thesis using ord pos row by blast
qed

text \<open>Two suitable clients at 14:00, the one of lower priority stored first.\<close>

theorem assignLead_prefers_priority_witness:
  "assignLead (day20000 14 0) (\<lambda>k. day20000 14 0) NoFault
     [client_three\<lparr>WorkingHours := ''09:00-17:00''\<rparr>, client_two] =
     (Accepted 2, [client_three\<lparr>WorkingHours := ''09:00-17:00''\<rparr>, client_two\<lparr>ExistingLeads := 1\<rparr>]) \<and>
   suitable (day20000 14 0) (day20000 14 0) (client_three\<lparr>WorkingHours := ''09:00-17:00''\<rparr>) \<and>
   suitable (day20000 14 0) (day20000 14 0) client_two \<and>
   (\<exists>c\<in>set [client_three\<lparr>WorkingHours := ''09:00-17:00''\<rparr>, client_two]. ID c = 2 \<and>
      ExistingLeads c < LeadCapacity c \<and> Priority client_three \<le> Priority c \<and>
      (Priority client_three = Priority c \<longrightarrow> ExistingLeads c \<le> ExistingLeads client_three))"
proof -
  have s: "suitable (day20000 14 0) (day20000 14 0) (client_three\<lparr>WorkingHours := ''09:00-17:00''\<rparr>)"
    "suitable (day20000 14 0) (day20000 14 0) client_two"
    using parse_examples [OF Date_day20000]
    by (simp_all add: suitable_def After_def Before_def)
  show ?thesis
    using assignLead_prefers_priority [where currentTime = "day20000 14 0"
        and clock = "\<lambda>k. day20000 14 0" and flt = NoFault
        and tbl = "[client_three\<lparr>WorkingHours := ''09:00-17:00''\<rparr>, client_two]" and cid = 2
        and tbl' = "[client_three\<lparr>WorkingHours := ''09:00-17:00''\<rparr>, client_two\<lparr>ExistingLeads := 1\<rparr>]"]
      s assignLead_two_suitable
    by simp
qed



text \<open>
  Claim C5, amended. When no database call fails, the scan ends in one of three ways: a
  client id, the parse failure, or no suitable client. It reports the parse failure if
  and only if it reaches a client whose working hours do not parse (every client before
  it parsed and was not suitable), and it reports no suitable client if and only if every
  client of the snapshot parses and none is suitable. Suitability is that of the
  snapshot: the answer does not depend on the table at the time of the update.
\<close>

theorem scan_clients_outcomes:
  "(flt = NoFault \<longrightarrow>
      (\<exists>cid. fst (scan_clients currentTime clock flt k clients tbl) = Accepted cid) \<or>
      fst (scan_clients currentTime clock flt k clients tbl) = FailedToParseWorkingHours \<or>
      fst (scan_clients currentTime clock flt k clients tbl) = NoSuitableClientFound) \<and>
   (fst (scan_clients currentTime clock flt k clients tbl) = FailedToParseWorkingHours \<longleftrightarrow>
      (\<exists>i<length clients. unparsable (clock (k + i)) (clients ! i) \<and>
         (\<forall>j<i. \<not> unparsable (clock (k + j)) (clients ! j) \<and>
                \<not> suitable currentTime (clock (k + j)) (clients ! j)))) \<and>
   (fst (scan_clients currentTime clock flt k clients tbl) = NoSuitableClientFound \<longleftrightarrow>
      (\<forall>i<length clients. \<not> unparsable (clock (k + i)) (clients ! i) \<and>
                \<not> suitable currentTime (clock (k + i)) (clients ! i))) \<and>
   FailedToParseWorkingHours \<noteq> NoSuitableClientFound \<and>
   assignLead currentTime clock NoFault tbl =
     scan_clients currentTime clock NoFault 0 (select_clients tbl) tbl"
proof -
  let ?P = "\<lambda>j. \<not> unparsable (clock (k + j)) (clients ! j) \<and> \<not> suitable currentTime (clock (k + j)) (clients ! j)"
  let ?r = "scan_clients currentTime clock flt k clients tbl"
  let ?A = "\<forall>i<length clients. ?P i"
  let ?U = "\<exists>i<length clients. unparsable (clock (k + i)) (clients ! i) \<and> (\<forall>j<i. ?P j)"
  let ?S = "\<exists>i<length clients. suitable currentTime (clock (k + i)) (clients ! i) \<and> (\<forall>j<i. ?P j)"
  have cases: "?A \<or> ?U \<or> ?S"
    using scan_stop_cases [of "length clients" ?P] by blast
  have rA: "fst ?r = NoSuitableClientFound" if ?A
    using scan_clients_none [OF that] by simp
  have rU: "fst ?r = FailedToParseWorkingHours" if ?U
  proof -
    from that obtain i where "i < length clients" "unparsable (clock (k + i)) (clients ! i)" "\<forall>j<i. ?P j"
      by blast
    then show ?thesis using scan_clients_stop_unparsable [of i clients clock k currentTime flt tbl] by simp
  qed
  have rS: "fst ?r = (if flt = ExecFault then FailedToUpdateLeadCounter else Accepted (ID (clients ! i)))"
    if "i < length clients" "suitable currentTime (clock (k + i)) (clients ! i)" "\<forall>j<i. ?P j" for i
    using scan_clients_stop_suitable [OF that, of flt tbl] by simp
  have rS': "fst ?r \<noteq> FailedToParseWorkingHours \<and> fst ?r \<noteq> NoSuitableClientFound \<and>
      (flt = NoFault \<longrightarrow> (\<exists>cid. fst ?r = Accepted cid))" if ?S
  proof -
    from that obtain i where "i < length clients" "suitable currentTime (clock (k + i)) (clients ! i)" "\<forall>j<i. ?P j"
      by blast
    from rS [OF this] show ?thesis by (cases flt) auto
  qed
  have 1: "flt = NoFault \<longrightarrow> (\<exists>cid. fst ?r = Accepted cid) \<or> fst ?r = FailedToParseWorkingHours \<or>
      fst ?r = NoSuitableClientFound"
    using cases rA rU rS' by blast
  have 2: "fst ?r = FailedToParseWorkingHours \<longleftrightarrow> ?U"
  proof
    assume a: "fst ?r = FailedToParseWorkingHours"
    have "\<not> ?A"
    proof
      assume ?A
      from rA [OF this] a show False by simp
    qed
    moreover have "\<not> ?S"
    proof
      assume ?S
      from rS' [OF this] a show False by simp
    qed
    ultimately show ?U using cases by blast
  next
    assume ?U
    then show "fst ?r = FailedToParseWorkingHours" by (rule rU)
  qed
  have 3: "fst ?r = NoSuitableClientFound \<longleftrightarrow> ?A"
  proof
    assume a: "fst ?r = NoSuitableClientFound"
    have "\<not> ?U"
    proof
      assume ?U
      from rU [OF this] a show False by simp
    qed
    moreover have "\<not> ?S"
    proof
      assume ?S
      from rS' [OF this] a show False by simp
    qed
    ultimately show ?A using cases by blast
  next
    assume ?A
    then show "fst ?r = NoSuitableClientFound" by (rule rA)
  qed
  have 4: "assignLead currentTime clock NoFault tbl =
     scan_clients currentTime clock NoFault 0 (select_clients tbl) tbl"
    by (simp add: assignLead_def read_clients_def)
  show ?thesis using 1 2 3 4 by blast
qed

text \<open>A scan that reaches malformed working hours, and a scan of the first and third
  client of the test at 14:00.\<close>

theorem scan_clients_outcomes_witness:
  "fst (scan_clients (day20000 14 0) (\<lambda>k. day20000 14 0) NoFault 0
          [client_one, client_three\<lparr>WorkingHours := ''non-time-format''\<rparr>, client_two] []) =
     FailedToParseWorkingHours \<and>
   fst (scan_clients (day20000 14 0) (\<lambda>k. day20000 14 0) NoFault 0 [client_one, client_three] []) =
     NoSuitableClientFound"
proof -
  let ?t = "day20000 14 0"
  let ?bad = "client_three\<lparr>WorkingHours := ''non-time-format''\<rparr>"
  have u: "unparsable ?t ?bad"
    by (simp add: unparsable_def parseTimePeriod_def)
  have p: "\<not> unparsable ?t client_one" "\<not> unparsable ?t client_three"
    using parse_examples [OF Date_day20000] by (simp_all add: unparsable_def)
  note s = suitable_test_clients(2,3)
  have "\<exists>i<length [client_one, ?bad, client_two].
      unparsable ((\<lambda>k. ?t) (0 + i)) ([client_one, ?bad, client_two] ! i) \<and>
      (\<forall>j<i. \<not> unparsable ((\<lambda>k. ?t) (0 + j)) ([client_one, ?bad, client_two] ! j) \<and>
             \<not> suitable ?t ((\<lambda>k. ?t) (0 + j)) ([client_one, ?bad, client_two] ! j))"
    using u p(1) s(1) by (intro exI [of _ 1]) simp
  then have 1: "fst (scan_clients ?t (\<lambda>k. ?t) NoFault 0 [client_one, ?bad, client_two] []) =
      FailedToParseWorkingHours"
    using scan_clients_outcomes [of NoFault ?t "\<lambda>k. ?t" 0 "[client_one, ?bad, client_two]" "[]"]
    by blast
  have "\<forall>i<length [client_one, client_three].
      \<not> unparsable ((\<lambda>k. ?t) (0 + i)) ([client_one, client_three] ! i) \<and>
      \<not> suitable ?t ((\<lambda>k. ?t) (0 + i)) ([client_one, client_three] ! i)"
    using p s by (simp add: less_Suc_eq)
  then have 2: "fst (scan_clients ?t (\<lambda>k. ?t) NoFault 0 [client_one, client_three] []) =
      NoSuitableClientFound"
    using scan_clients_outcomes [of NoFault ?t "\<lambda>k. ?t" 0 "[client_one, client_three]" "[]"]
    by blast
  from 1 2 show ?thesis ..
qed

text \<open>
  Claim C5 as stated fails for a candidate that lost the capacity race: two requests read
  the table, the first takes the only lead of the client, and the second, whose snapshot
  still shows the client with room, is answered with the client's id instead of "no
  suitable client".
\<close>

theorem lost_capacity_race_accepted:
  "run_requests (\<lambda>k. day20000 14 0) [0, 1, 0]
     ([Arrived (day20000 14 0), Arrived (day20000 14 0)], [solo]) =
     ([Answered (Accepted 1), Holding (day20000 14 0) [scan_row solo]], [solo\<lparr>ExistingLeads := 1\<rparr>]) \<and>
   \<not> ExistingLeads (solo\<lparr>ExistingLeads := 1\<rparr>) < LeadCapacity (solo\<lparr>ExistingLeads := 1\<rparr>) \<and>
   step_request (\<lambda>k. day20000 14 0) (Holding (day20000 14 0) [scan_row solo]) [solo\<lparr>ExistingLeads := 1\<rparr>] =
     (Answered (Accepted 1), [solo\<lparr>ExistingLeads := 2\<rparr>]) \<and>
   Accepted 1 \<noteq> NoSuitableClientFound"
  using scan_solo scan_solo_stale
  by (simp add: read_clients_def select_solo)

text \<open>
  Claim C9. One call of \<^verbatim>\<open>assignLead\<close> writes at most once. When it answers with a client
  id, the table keeps its length, every row with that id has its existing leads
  incremented by one and is otherwise unchanged, every other row is unchanged, and such a
  row exists (exactly one row changes when ids are a primary key). With any other answer
  the table is unchanged.
\<close>

theorem assignLead_frame:
  assumes "assignLead currentTime clock flt tbl = (r, tbl')"
  shows "(\<forall>cid. r = Accepted cid \<longrightarrow>
            length tbl' = length tbl \<and>
            (\<forall>n<length tbl.
               tbl' ! n = (if ID (tbl ! n) = cid
                           then (tbl ! n)\<lparr>ExistingLeads := ExistingLeads (tbl ! n) + 1\<rparr>
                           else tbl ! n)) \<and>
            (\<exists>n<length tbl. ID (tbl ! n) = cid) \<and>
            (primary_key tbl \<longrightarrow> (\<exists>!n. n < length tbl \<and> tbl' ! n \<noteq> tbl ! n))) \<and>
         ((\<forall>cid. r \<noteq> Accepted cid) \<longrightarrow> tbl' = tbl)"
proof -
  have acc: "length tbl' = length tbl \<and>
            (\<forall>n<length tbl.
               tbl' ! n = (if ID (tbl ! n) = cid
                           then (tbl ! n)\<lparr>ExistingLeads := ExistingLeads (tbl ! n) + 1\<rparr>
                           else tbl ! n)) \<and>
            (\<exists>n<length tbl. ID (tbl ! n) = cid) \<and>
            (primary_key tbl \<longrightarrow> (\<exists>!n. n < length tbl \<and> tbl' ! n \<noteq> tbl ! n))"
    if "r = Accepted cid" for cid
  proof -
    have a: "assignLead currentTime clock flt tbl = (Accepted cid, tbl')"
      using assms that by simp
    from assignLead_Accepted_row [OF a]
    obtain r0 where upd: "tbl' = exec_update tbl cid" and r0: "r0 \<in> set tbl" "ID r0 = cid"
      by blast
    obtain m where m: "m < length tbl" "tbl ! m = r0"
      using r0(1) by (auto simp: in_set_conv_nth)
    have nth: "\<forall>n<length tbl.
               tbl' ! n = (if ID (tbl ! n) = cid
                           then (tbl ! n)\<lparr>ExistingLeads := ExistingLeads (tbl ! n) + 1\<rparr>
                           else tbl ! n)"
      using upd by (simp add: nth_exec_update)
    have ch: "tbl' ! n \<noteq> tbl ! n \<longleftrightarrow> ID (tbl ! n) = cid" if "n < length tbl" for n
    proof -
      have "(tbl ! n)\<lparr>ExistingLeads := ExistingLeads (tbl ! n) + 1\<rparr> \<noteq> tbl ! n"
      proof
        assume "(tbl ! n)\<lparr>ExistingLeads := ExistingLeads (tbl ! n) + 1\<rparr> = tbl ! n"
        then have "ExistingLeads ((tbl ! n)\<lparr>ExistingLeads := ExistingLeads (tbl ! n) + 1\<rparr>) =
            ExistingLeads (tbl ! n)"
          by simp
        then show False by simp
      qed
      then show ?thesis using nth that by simp
    qed
    have uniq: "\<exists>!n. n < length tbl \<and> tbl' ! n \<noteq> tbl ! n" if pk: "primary_key tbl"
    proof (rule ex1I [of _ m])
      show "m < length tbl \<and> tbl' ! m \<noteq> tbl ! m"
        using m r0(2) ch [of m] by simp
    next
      fix n
      assume n: "n < length tbl \<and> tbl' ! n \<noteq> tbl ! n"
      then have "ID (tbl ! n) = ID (tbl ! m)"
        using ch [of n] m r0(2) by simp
      then show "n = m"
        using primary_key_unique [OF pk _ m(1)] n by blast
    qed
    have "\<exists>n<length tbl. ID (tbl ! n) = cid"
      using m r0(2) by blast
    then show ?thesis using upd nth uniq by simp
  qed
  have "tbl' = tbl" if "\<forall>cid. r \<noteq> Accepted cid"
    using assms that by (rule assignLead_unchanged)
  then show ?thesis using acc by blast
qed

text \<open>The three clients of the test at 14:00: only the row of client two changes.\<close>

theorem assignLead_frame_witness:
  "assignLead (day20000 14 0) (\<lambda>k. day20000 14 0) NoFault [client_one, client_two, client_three] =
     (Accepted 2, [client_one, client_two\<lparr>ExistingLeads := 1\<rparr>, client_three]) \<and>
   primary_key [client_one, client_two, client_three] \<and>
   (\<exists>!n. n < length [client_one, client_two, client_three] \<and>
      [client_one, client_two\<lparr>ExistingLeads := 1\<rparr>, client_three] ! n \<noteq>
      [client_one, client_two, client_three] ! n)"
proof -
  have "\<exists>!n. n < length [client_one, client_two, client_three] \<and>
      [client_one, client_two\<lparr>ExistingLeads := 1\<rparr>, client_three] ! n \<noteq>
      [client_one, client_two, client_three] ! n"
    using assignLead_frame [OF assignLead_test_clients] primary_key_test_clients by blast
  with assignLead_test_clients primary_key_test_clients show ?thesis by blast
qed

text \<open>
  Claim C10. One call of \<^verbatim>\<open>assignLead\<close> on a table with distinct ids in which every
  client has \<open>0 \<le> existingLeads \<le> leadCapacity\<close> leaves a table with distinct ids in
  which every client has it, whatever the answer.
\<close>

theorem assignLead_preserves_within_capacity:
  assumes "primary_key tbl" and "\<forall>c\<in>set tbl. within_capacity c"
    and "assignLead currentTime clock flt tbl = (r, tbl')"
  shows "primary_key tbl' \<and> (\<forall>c\<in>set tbl'. within_capacity c)"
proof (cases "\<exists>cid. r = Accepted cid")
  case False
  then have "tbl' = tbl"
    using assms(3) assignLead_unchanged by blast
  then show ?thesis using assms(1,2) by simp
next
  case True
  then obtain cid where a: "assignLead currentTime clock flt tbl = (Accepted cid, tbl')"
    using assms(3) by auto
  from assignLead_Accepted_row [OF a]
  obtain r0 where upd: "tbl' = exec_update tbl cid" and r0: "r0 \<in> set tbl" "ID r0 = cid"
    "ExistingLeads r0 < LeadCapacity r0"
    by blast
  have pk: "primary_key tbl'"
    using assms(1) upd by (simp add: primary_key_def)
  have inj: "inj_on ID (set tbl)"
    using assms(1) by (simp add: primary_key_def distinct_map)
  have "within_capacity c'" if "c' \<in> set tbl'" for c'
  proof -
    from that upd obtain c where c: "c \<in> set tbl"
      "c' = (if ID c = cid then c\<lparr>ExistingLeads := ExistingLeads c + 1\<rparr> else c)"
      by (auto simp: exec_update_def)
    show ?thesis
    proof (cases "ID c = cid")
      case True
      then have "c = r0" using inj c(1) r0(1,2) by (auto dest: inj_onD)
      moreover have "within_capacity r0" using assms(2) r0(1) by blast
      ultimately show ?thesis using True c(2) r0(3) by (simp add: within_capacity_def)
    next
      case False
      then show ?thesis using c assms(2) by simp
    qed
  qed
  then show ?thesis using pk by blast
qed

text \<open>The three clients of the test at 14:00.\<close>

theorem assignLead_preserves_within_capacity_witness:
  "primary_key [client_one, client_two, client_three] \<and>
   within_capacity client_one \<and> within_capacity client_two \<and> within_capacity client_three \<and>
   assignLead (day20000 14 0) (\<lambda>k. day20000 14 0) NoFault [client_one, client_two, client_three] =
     (Accepted 2, [client_one, client_two\<lparr>ExistingLeads := 1\<rparr>, client_three]) \<and>
   primary_key [client_one, client_two\<lparr>ExistingLeads := 1\<rparr>, client_three] \<and>
   within_capacity (client_two\<lparr>ExistingLeads := 1\<rparr>)"
proof -
  have w: "within_capacity client_one" "within_capacity client_two" "within_capacity client_three"
    by (simp_all add: within_capacity_def)
  then have all: "\<forall>c\<in>set [client_one, client_two, client_three]. within_capacity c"
    by simp
  from assignLead_preserves_within_capacity [OF primary_key_test_clients all assignLead_test_clients]
  have "primary_key [client_one, client_two\<lparr>ExistingLeads := 1\<rparr>, client_three]"
    "within_capacity (client_two\<lparr>ExistingLeads := 1\<rparr>)"
    by simp_all
  with w primary_key_test_clients assignLead_test_clients show ?thesis by blast
qed




end
